theory Spec2Isabelle
  imports Main
begin

section \<open>Headless map export of the map editor (src/tiled/main.cpp)\<close>

text \<open>
  The development embeds the part of \<^verbatim>\<open>main\<close> that follows the application bootstrap:
  the command line handler with its four option callbacks, the test of the parse result,
  the export branch (selection of a map writer, loading, writing, releasing the map) and
  the hand-over to the main window. Strings are \<^typ>\<open>string\<close>; everything the program does
  besides computing its exit status is recorded as a list of events, in the order in which
  the program does it, and the files the writers touch are an abstract value of type
  \<^typ>\<open>'fs\<close> that only a writer can change.
\<close>

subsection \<open>Strings and string lists\<close>

text \<open>
  The comparisons of the export branch are made with \<^verbatim>\<open>Qt::CaseInsensitive\<close>. The model
  folds the case of the letters A to Z; every other character is left as it is.
\<close>

definition toLower :: "char \<Rightarrow> char" where
  "toLower c =
     (case map_of (zip ''ABCDEFGHIJKLMNOPQRSTUVWXYZ'' ''abcdefghijklmnopqrstuvwxyz'') c of
        Some l \<Rightarrow> l
      | None \<Rightarrow> c)"

definition toCaseFolded :: "string \<Rightarrow> string" where
  "toCaseFolded s = map toLower s"

text \<open>\<^verbatim>\<open>QString::startsWith\<close> and \<^verbatim>\<open>QString::contains\<close>, case sensitive.\<close>

fun startsWith :: "string \<Rightarrow> string \<Rightarrow> bool" where
  "startsWith s [] = True"
| "startsWith [] (c # cs) = False"
| "startsWith (d # ds) (c # cs) = (d = c \<and> startsWith ds cs)"

fun strContains :: "string \<Rightarrow> string \<Rightarrow> bool" where
  "strContains [] str = (str = [])"
| "strContains (d # ds) str = (startsWith (d # ds) str \<or> strContains ds str)"

text \<open>
  \<^verbatim>\<open>QStringList::contains(str, Qt::CaseInsensitive)\<close>: some element is equal to \<open>str\<close> up to
  case. \<^verbatim>\<open>QStringList::filter(str, Qt::CaseInsensitive)\<close>: the elements that have \<open>str\<close> as
  a substring up to case, in their order.
\<close>

definition containsCI :: "string list \<Rightarrow> string \<Rightarrow> bool" where
  "containsCI l str = list_ex (\<lambda>s. toCaseFolded s = toCaseFolded str) l"

definition filterCI :: "string list \<Rightarrow> string \<Rightarrow> string list" where
  "filterCI l str = filter (\<lambda>s. strContains (toCaseFolded s) (toCaseFolded str)) l"

text \<open>
  \<^verbatim>\<open>QFileInfo(path).completeSuffix()\<close>: the file name is what follows the last \<^verbatim>\<open>/\<close> of the
  path, and the complete suffix is what follows the first dot of the file name (empty when
  the file name has no dot).
\<close>

definition fileName :: "string \<Rightarrow> string" where
  "fileName path = rev (takeWhile (\<lambda>c. c \<noteq> CHR ''/'') (rev path))"

definition completeSuffix :: "string \<Rightarrow> string" where
  "completeSuffix path =
     (case dropWhile (\<lambda>c. c \<noteq> CHR ''.'') (fileName path) of
        [] \<Rightarrow> []
      | dot # s \<Rightarrow> s)"

subsection \<open>Events, errors and the collaborators of \<^verbatim>\<open>main\<close>\<close>

type_synonym addr = nat

text \<open>
  What the program does to its surroundings. \<open>Warning\<close> is a line written with
  \<^verbatim>\<open>qWarning()\<close>; \<open>ReadMap\<close> and \<open>WriteMap\<close> are the calls of the reader and of the chosen
  writer; \<open>Delete\<close> is the release of the object at an address (\<^verbatim>\<open>qDeleteAll\<close> and
  \<^verbatim>\<open>delete\<close>); the last three are the main window.
\<close>

datatype event =
    Warning string
  | SetUseOpenGL bool
  | LoadPlugins
  | ReadMap string
  | WriteMap addr string
  | Delete addr
  | ShowMainWindow
  | OpenFile string
  | OpenLastFiles

text \<open>
  The ways in which a run ends early. The source has no such type: it prints a message and
  returns. The names are those of the specification, and \<open>message\<close> gives the line that
  the source prints in each case (a failed parse prints through the parser, which is not
  part of \<^verbatim>\<open>main.cpp\<close>).
\<close>

datatype error =
    MalformedArguments
  | InsufficientArguments
  | AmbiguousFormat
  | NoWriterFound
  | SourceLoadFailed
  | ExportWriteFailed

fun message :: "error \<Rightarrow> string" where
  "message MalformedArguments = []"
| "message InsufficientArguments =
     ''Export syntax is --export-map [format] <tmx file> <target file>''"
| "message AmbiguousFormat =
     ''Non-unique file extension. Can't determine correct export format.''"
| "message NoWriterFound = ''No exporter found for target file.''"
| "message SourceLoadFailed = ''Failed to load source map.''"
| "message ExportWriteFailed = ''Failed to export map to target file.''"

text \<open>
  A map as the export branch sees it: the address of the \<^verbatim>\<open>Tiled::Map\<close> object and the
  list of tile set pointers that \<^verbatim>\<open>map->tilesets()\<close> returns.
\<close>

record TiledMap =
  mapAddr :: addr
  tilesets :: "addr list"

text \<open>
  \<^verbatim>\<open>Tiled::MapWriterInterface\<close>: the declared name filters and the \<^verbatim>\<open>write\<close> operation
  (here \<open>write'\<close>), which reports success and may change the files.
\<close>

record 'fs MapWriterInterface =
  nameFilters :: "string list"
  write' :: "TiledMap \<Rightarrow> string \<Rightarrow> 'fs \<Rightarrow> bool \<times> 'fs"

text \<open>
  What \<^verbatim>\<open>main\<close> obtains from the rest of the application: the writers that the plugin
  manager returns, in its order; the map reader, where \<open>None\<close> is the null pointer;
  and the status that the event loop of the main window returns.
\<close>

record 'fs collaborators =
  writers :: "'fs MapWriterInterface list"
  readMap :: "string \<Rightarrow> 'fs \<Rightarrow> TiledMap option"
  exec :: int

text \<open>
  The result of a run: the exit status, the reason of an early end if there is one, the
  events in order, and the files as the run leaves them.
\<close>

record 'fs result =
  exitCode :: int
  failure :: "error option"
  events :: "event list"
  world :: 'fs

subsection \<open>The command line handler (lines 53 to 135)\<close>

record CommandLineHandler =
  quit :: bool
  showedVersion :: bool
  disableOpenGL :: bool
  exportMap :: bool
  filesToOpen :: "string list"

text \<open>
  The state on which the callbacks work: the handler object and the lines printed so far.
  \<open>filesToOpen\<close> is the member of the base class that \<^verbatim>\<open>filesToOpen()\<close> returns.
\<close>

type_synonym cmdState = "CommandLineHandler \<times> event list"

definition newCommandLineHandler :: CommandLineHandler where
  "newCommandLineHandler =
     \<lparr>quit = False, showedVersion = False, disableOpenGL = False, exportMap = False,
      filesToOpen = []\<rparr>"

definition applicationName :: string where
  "applicationName = ''Dofus.io Map Editor''"

text \<open>The version of a build that does not define \<^verbatim>\<open>BUILD_INFO_VERSION\<close>.\<close>

definition applicationVersion :: string where
  "applicationVersion = ''0.12.0''"

definition versionLine :: event where
  "versionLine = Warning (applicationName @ '' '' @ applicationVersion)"

fun showVersion :: "cmdState \<Rightarrow> cmdState" where
  "showVersion (h, out) =
     (if \<not> showedVersion h
      then (h\<lparr>showedVersion := True, quit := True\<rparr>, out @ [versionLine])
      else (h, out))"

fun justQuit :: "cmdState \<Rightarrow> cmdState" where
  "justQuit (h, out) = (h\<lparr>quit := True\<rparr>, out)"

fun setDisableOpenGL :: "cmdState \<Rightarrow> cmdState" where
  "setDisableOpenGL (h, out) = (h\<lparr>disableOpenGL := True\<rparr>, out)"

fun setExportMap :: "cmdState \<Rightarrow> cmdState" where
  "setExportMap (h, out) = (h\<lparr>exportMap := True\<rparr>, out)"

text \<open>
  The callbacks by name, and the options that the constructor registers: short name (if
  any), long name and callback.
\<close>

datatype callback = ShowVersion | JustQuit | SetDisableOpenGL | SetExportMap

fun invoke :: "callback \<Rightarrow> cmdState \<Rightarrow> cmdState" where
  "invoke ShowVersion s = showVersion s"
| "invoke JustQuit s = justQuit s"
| "invoke SetDisableOpenGL s = setDisableOpenGL s"
| "invoke SetExportMap s = setExportMap s"

definition registeredOptions :: "(char option \<times> string \<times> callback) list" where
  "registeredOptions =
     [(Some (CHR ''v''), ''--version'', ShowVersion),
      (None, ''--quit'', JustQuit),
      (None, ''--disable-opengl'', SetDisableOpenGL),
      (None, ''--export-map'', SetExportMap)]"

text \<open>A parser can do no more to the handler than call callbacks, one after the other.\<close>

fun invokeAll :: "callback list \<Rightarrow> cmdState \<Rightarrow> cmdState" where
  "invokeAll [] s = s"
| "invokeAll (c # cs) s = invokeAll cs (invoke c s)"

subsection \<open>The parser\<close>

text \<open>
  Modelled from the spec: \<^verbatim>\<open>CommandLineParser::parse\<close>, the base class of the handler
  (\<^verbatim>\<open>commandlineparser.h\<close> and its implementation are not among the sources). The
  specification says: the flags are boolean switches, any other token is a positional
  file argument, collected in order, and an unknown flag makes parsing fail. A token is
  taken to be a flag when it begins with a hyphen; it is known when it is the long name of
  a registered option or a hyphen followed by its short name. The tokens are those that
  follow the program name. Parsing stops at the first unknown flag.
\<close>

definition isFlag :: "string \<Rightarrow> bool" where
  "isFlag token = startsWith token ''-''"

fun lookupOption :: "(char option \<times> string \<times> callback) list \<Rightarrow> string \<Rightarrow> callback option" where
  "lookupOption [] token = None"
| "lookupOption ((shortName, longName, cb) # opts) token =
     (if token = longName \<or> (case shortName of Some c \<Rightarrow> token = [CHR ''-'', c] | None \<Rightarrow> False)
      then Some cb
      else lookupOption opts token)"

definition unknownFlag :: "string \<Rightarrow> bool" where
  "unknownFlag token = (isFlag token \<and> lookupOption registeredOptions token = None)"

fun parse :: "string list \<Rightarrow> cmdState \<Rightarrow> bool \<times> cmdState" where
  "parse [] s = (True, s)"
| "parse (token # rest) (h, out) =
     (case lookupOption registeredOptions token of
        Some cb \<Rightarrow> parse rest (invoke cb (h, out))
      | None \<Rightarrow>
          if isFlag token then (False, (h, out))
          else parse rest (h\<lparr>filesToOpen := filesToOpen h @ [token]\<rparr>, out))"

subsection \<open>The export branch (lines 199 to 257)\<close>

text \<open>
  The loop over the writers (lines 215 to 229). \<open>chosenWriter\<close> and \<open>filter'\<close> are the
  variables \<^verbatim>\<open>chosenWriter\<close> and \<^verbatim>\<open>filter\<close> of the source, \<open>None\<close> for the null pointer.
  The return from inside the loop is the result \<open>Inl AmbiguousFormat\<close>, which ends the
  recursion.
\<close>

fun findWriter ::
  "string option \<Rightarrow> string \<Rightarrow> 'fs MapWriterInterface list \<Rightarrow> 'fs MapWriterInterface option
     \<Rightarrow> error + 'fs MapWriterInterface option" where
  "findWriter filter' suffix [] chosenWriter = Inr chosenWriter"
| "findWriter filter' suffix (writer # ws) chosenWriter =
     (case filter' of
        Some f \<Rightarrow>
          if containsCI (nameFilters writer) f
          then findWriter filter' suffix ws (Some writer)
          else findWriter filter' suffix ws chosenWriter
      | None \<Rightarrow>
          if filterCI (nameFilters writer) suffix \<noteq> []
          then (case chosenWriter of
                  Some c \<Rightarrow> Inl AmbiguousFormat
                | None \<Rightarrow> findWriter filter' suffix ws (Some writer))
          else findWriter filter' suffix ws chosenWriter)"

text \<open>
  Lines 201 to 234: the positional arguments give the filter, the source and the target;
  the writers are searched; the result is an error or the source, the target and the
  chosen writer. With more than two arguments the first is the filter and the next two
  are the files; further arguments are not read.
\<close>

definition resolveWriter ::
  "'fs MapWriterInterface list \<Rightarrow> string list
     \<Rightarrow> error + (string \<times> string \<times> 'fs MapWriterInterface)" where
  "resolveWriter ws files =
     (if length files < 2 then Inl InsufficientArguments
      else
        let index = (0::nat);
            filter' = (if length files > 2 then Some (files ! index) else None);
            index = (if length files > 2 then index + 1 else index);
            sourceFile = files ! index;
            targetFile = files ! (index + 1);
            suffix = completeSuffix targetFile
        in case findWriter filter' suffix ws None of
             Inl e \<Rightarrow> Inl e
           | Inr None \<Rightarrow> Inl NoWriterFound
           | Inr (Some chosenWriter) \<Rightarrow> Inr (sourceFile, targetFile, chosenWriter))"

text \<open>
  Lines 236 to 256: the map is read, written, released, and the status is returned.
  \<open>before\<close> holds the events that precede the call.
\<close>

definition runExport ::
  "'fs collaborators \<Rightarrow> string \<Rightarrow> string \<Rightarrow> 'fs MapWriterInterface \<Rightarrow> event list \<Rightarrow> 'fs
     \<Rightarrow> 'fs result" where
  "runExport env sourceFile targetFile chosenWriter before fs =
     (case readMap env sourceFile fs of
        None \<Rightarrow>
          \<lparr>exitCode = 1, failure = Some SourceLoadFailed,
           events = before @ [ReadMap sourceFile, Warning (message SourceLoadFailed)],
           world = fs\<rparr>
      | Some m \<Rightarrow>
          let (success, fs') = write' chosenWriter m targetFile fs;
              done = before @ [ReadMap sourceFile, WriteMap (mapAddr m) targetFile]
                       @ map Delete (tilesets m) @ [Delete (mapAddr m)]
          in if \<not> success
             then \<lparr>exitCode = 1, failure = Some ExportWriteFailed,
                   events = done @ [Warning (message ExportWriteFailed)], world = fs'\<rparr>
             else \<lparr>exitCode = 0, failure = None, events = done, world = fs'\<rparr>)"

definition exportMapMode ::
  "'fs collaborators \<Rightarrow> string list \<Rightarrow> event list \<Rightarrow> 'fs \<Rightarrow> 'fs result" where
  "exportMapMode env files before fs =
     (case resolveWriter (writers env) files of
        Inl e \<Rightarrow>
          \<lparr>exitCode = 1, failure = Some e, events = before @ [Warning (message e)], world = fs\<rparr>
      | Inr (sourceFile, targetFile, chosenWriter) \<Rightarrow>
          runExport env sourceFile targetFile chosenWriter before fs)"

subsection \<open>\<^verbatim>\<open>main\<close> from the parse on (lines 188 to 273)\<close>

text \<open>
  \<open>afterParse\<close> is \<^verbatim>\<open>main\<close> from line 190 on, for any result of the parser: its truth
  value and the state in which it leaves the handler. A failed parse and a requested quit
  both return 0.
\<close>

definition afterParse :: "'fs collaborators \<Rightarrow> bool \<times> cmdState \<Rightarrow> 'fs \<Rightarrow> 'fs result" where
  "afterParse env parsed fs =
     (case parsed of (ok, commandLine, out) \<Rightarrow>
        if \<not> ok
        then \<lparr>exitCode = 0, failure = Some MalformedArguments, events = out, world = fs\<rparr>
        else if quit commandLine
        then \<lparr>exitCode = 0, failure = None, events = out, world = fs\<rparr>
        else
          let started = out @ (if disableOpenGL commandLine then [SetUseOpenGL False] else [])
                          @ [LoadPlugins]
          in if exportMap commandLine
             then exportMapMode env (filesToOpen commandLine) started fs
             else \<lparr>exitCode = exec env, failure = None,
                   events = started @ [ShowMainWindow]
                     @ (if filesToOpen commandLine \<noteq> []
                        then map OpenFile (filesToOpen commandLine)
                        else [OpenLastFiles]),
                   world = fs\<rparr>)"

definition main :: "'fs collaborators \<Rightarrow> string list \<Rightarrow> 'fs \<Rightarrow> 'fs result" where
  "main env arguments fs = afterParse env (parse arguments (newCommandLineHandler, [])) fs"

subsection \<open>Matching writers\<close>

text \<open>
  The two tests of the loop, as predicates on a writer: the filter is one of the declared
  name filters up to case; the suffix is a substring, up to case, of one of them.
\<close>

definition matchesFilter :: "string \<Rightarrow> 'fs MapWriterInterface \<Rightarrow> bool" where
  "matchesFilter f writer = (\<exists>p \<in> set (nameFilters writer). toCaseFolded p = toCaseFolded f)"

definition matchesSuffix :: "string \<Rightarrow> 'fs MapWriterInterface \<Rightarrow> bool" where
  "matchesSuffix suffix writer =
     (\<exists>p \<in> set (nameFilters writer). strContains (toCaseFolded p) (toCaseFolded suffix))"

text \<open>
  The writers of a registry that match an export call, in registry order: by the filter
  when there are more than two positional arguments, by the complete suffix of the target
  when there are two.
\<close>

definition matching :: "string list \<Rightarrow> 'fs MapWriterInterface list \<Rightarrow> 'fs MapWriterInterface list" where
  "matching files ws =
     (if length files > 2 then filter (matchesFilter (files ! 0)) ws
      else filter (matchesSuffix (completeSuffix (files ! 1))) ws)"

subsection \<open>Fixtures\<close>

text \<open>
  Concrete collaborators for the examples: the files are a list of pairs of a path and
  the tag of the writer that wrote it, a writer adds such a pair and reports the given
  truth value, and the reader knows one source file, whose map holds two tile sets.
\<close>

type_synonym files = "(string \<times> string) list"

definition fixtureWriter :: "string list \<Rightarrow> string \<Rightarrow> bool \<Rightarrow> files MapWriterInterface" where
  "fixtureWriter filters tag ok =
     \<lparr>nameFilters = filters, write' = (\<lambda>m path fs. (ok, (path, tag) # fs))\<rparr>"

definition fixtureReader :: "string \<Rightarrow> files \<Rightarrow> TiledMap option" where
  "fixtureReader path fs =
     (if path = ''a.tmx'' then Some \<lparr>mapAddr = 1, tilesets = [2, 3]\<rparr> else None)"

definition fixture :: "files MapWriterInterface list \<Rightarrow> files collaborators" where
  "fixture ws = \<lparr>writers = ws, readMap = fixtureReader, exec = 0\<rparr>"

subsection \<open>An invariant of the handler\<close>

text \<open>
  Two facts that every callback keeps: once the version has been shown, quit is
  requested; and the version line has been printed once if \<open>showedVersion\<close> is set and
  not at all otherwise.
\<close>

definition versionShownOnce :: "cmdState \<Rightarrow> bool" where
  "versionShownOnce s =
     ((showedVersion (fst s) \<longrightarrow> quit (fst s))
      \<and> count_list (snd s) versionLine = (if showedVersion (fst s) then 1 else 0))"

section \<open>Properties\<close>

subsection \<open>The loop and the resolution in closed form\<close>

text \<open>
  The tests of the loop are the two predicates; with a filter the loop returns the last
  matching writer, without one it returns the only matching writer and fails when there
  are two.
\<close>

lemma containsCI_iff: "containsCI (nameFilters w) f = matchesFilter f w"
  by (simp add: containsCI_def matchesFilter_def list_ex_iff)

lemma filterCI_iff: "(filterCI (nameFilters w) s \<noteq> []) = matchesSuffix s w"
  by (auto simp add: filterCI_def matchesSuffix_def filter_empty_conv)

lemma findWriter_filter:
  "findWriter (Some f) s ws c =
     Inr (case filter (matchesFilter f) ws of [] \<Rightarrow> c | m # ms \<Rightarrow> Some (last (m # ms)))"
proof (induction ws arbitrary: c)
  case Nil
  show ?case by simp
next
  case (Cons w ws)
  show ?case
    by (cases "filter (matchesFilter f) ws") (simp_all add: Cons.IH containsCI_iff)
qed

lemma findWriter_suffix_chosen:
  "findWriter None s ws (Some c) =
     (if filter (matchesSuffix s) ws = [] then Inr (Some c) else Inl AmbiguousFormat)"
  by (induction ws) (simp_all add: filterCI_iff)

lemma findWriter_suffix:
  "findWriter None s ws None =
     (case filter (matchesSuffix s) ws of
        [] \<Rightarrow> Inr None
      | [m] \<Rightarrow> Inr (Some m)
      | m # m' # ms \<Rightarrow> Inl AmbiguousFormat)"
proof (induction ws)
  case Nil
  show ?case by simp
next
  case (Cons w ws)
  show ?case
    by (simp add: Cons.IH filterCI_iff findWriter_suffix_chosen split: list.splits)
qed

lemma resolveWriter_eq:
  "resolveWriter ws files =
     (if length files < 2 then Inl InsufficientArguments
      else case matching files ws of
             [] \<Rightarrow> Inl NoWriterFound
           | m # ms \<Rightarrow>
               if length files > 2 then Inr (files ! 1, files ! 2, last (m # ms))
               else if ms = [] then Inr (files ! 0, files ! 1, m)
               else Inl AmbiguousFormat)"
proof (cases "length files > 2")
  case True
  have "files ! Suc (Suc 0) = files ! 2"
    by (simp add: numeral_2_eq_2)
  with True show ?thesis
    by (simp add: resolveWriter_def matching_def findWriter_filter split: list.splits)
next
  case False
  then show ?thesis
    by (simp add: resolveWriter_def matching_def findWriter_suffix split: list.splits)
qed

lemma two_or_more:
  assumes "2 \<le> length xs"
  obtains m m' ms where "xs = m # m' # ms"
proof (cases xs)
  case Nil
  with assms show ?thesis by simp
next
  case (Cons m t)
  with assms obtain m' ms where "t = m' # ms"
    by (cases t) simp_all
  with Cons that show ?thesis by simp
qed

lemma matching_append_filter:
  "length files > 2 \<Longrightarrow> matchesFilter (files ! 0) w \<Longrightarrow>
   \<forall>x \<in> set post. \<not> matchesFilter (files ! 0) x \<Longrightarrow>
   \<exists>ms. matching files (pre @ w # post) = ms @ [w]"
  by (auto simp add: matching_def filter_empty_conv)

subsection \<open>Claim C1\<close>

text \<open>
  C1. Without a filter the search fails with \<open>AmbiguousFormat\<close> at the step at which a
  second writer matches the suffix of the target, whatever writers follow in the registry
  and without returning the first match: the loop fails at a matching writer as soon as a
  writer is already chosen, and so an export call with two positional arguments fails
  whenever two writers of the registry match. With a filter (more than two positional
  arguments), the writer chosen is the last one in registry order that matches the filter,
  however many match before it.
\<close>

theorem ambiguous_at_second_suffix_match_last_filter_match_wins:
  "(matchesSuffix s wb \<longrightarrow> findWriter None s (wb # rest) (Some wa) = Inl AmbiguousFormat)
   \<and> (length files = 2 \<and> matchesSuffix (completeSuffix (files ! 1)) wa
          \<and> matchesSuffix (completeSuffix (files ! 1)) wb
        \<longrightarrow> resolveWriter (pre @ wa # mid @ wb # rest) files = Inl AmbiguousFormat)
   \<and> (length files > 2 \<and> matchesFilter (files ! 0) w
          \<and> (\<forall>x \<in> set post. \<not> matchesFilter (files ! 0) x)
        \<longrightarrow> resolveWriter (pre @ w # post) files = Inr (files ! 1, files ! 2, w))"
proof (intro conjI impI)
  assume "matchesSuffix s wb"
  then show "findWriter None s (wb # rest) (Some wa) = Inl AmbiguousFormat"
    by (simp add: filterCI_iff)
next
  assume a: "length files = 2 \<and> matchesSuffix (completeSuffix (files ! 1)) wa
          \<and> matchesSuffix (completeSuffix (files ! 1)) wb"
  let ?P = "matchesSuffix (completeSuffix (files ! 1))"
  have "2 \<le> length (filter ?P (pre @ wa # mid @ wb # rest))"
    using a by simp
  then obtain m m' ms where "filter ?P (pre @ wa # mid @ wb # rest) = m # m' # ms"
    by (rule two_or_more)
  with a have "matching files (pre @ wa # mid @ wb # rest) = m # m' # ms"
    by (simp add: matching_def)
  with a show "resolveWriter (pre @ wa # mid @ wb # rest) files = Inl AmbiguousFormat"
    by (simp add: resolveWriter_eq)
next
  assume a: "length files > 2 \<and> matchesFilter (files ! 0) w
          \<and> (\<forall>x \<in> set post. \<not> matchesFilter (files ! 0) x)"
  then obtain ms where ms: "matching files (pre @ w # post) = ms @ [w]"
    using matching_append_filter by blast
  from a ms show "resolveWriter (pre @ w # post) files = Inr (files ! 1, files ! 2, w)"
    by (cases ms) (simp_all add: resolveWriter_eq)
qed

text \<open>An instance of C1 on a registry of fixture writers.\<close>

theorem ambiguous_at_second_suffix_match_last_filter_match_wins_witness:
  "findWriter None ''json''
       [fixtureWriter [''*.json''] ''B'' True, fixtureWriter [''*.tmx''] ''C'' True]
       (Some (fixtureWriter [''Json files (*.json)''] ''A'' True))
     = Inl AmbiguousFormat
   \<and> resolveWriter
       [fixtureWriter [''*.tmx''] ''C'' True, fixtureWriter [''Json files (*.json)''] ''A'' True,
        fixtureWriter [''*.lua''] ''D'' True, fixtureWriter [''*.json''] ''B'' True,
        fixtureWriter [''*.tmx''] ''C'' True]
       [''a.tmx'', ''b.JSON'']
     = Inl AmbiguousFormat
   \<and> resolveWriter
       [fixtureWriter [''json files''] ''A'' True, fixtureWriter [''*.lua'', ''JSON files''] ''B'' True,
        fixtureWriter [''*.tmx''] ''C'' True]
       [''Json Files'', ''a.tmx'', ''b.out'']
     = Inr (''a.tmx'', ''b.out'', fixtureWriter [''*.lua'', ''JSON files''] ''B'' True)"
  using ambiguous_at_second_suffix_match_last_filter_match_wins
    [where s = "''json''" and wb = "fixtureWriter [''*.json''] ''B'' True"
       and rest = "[fixtureWriter [''*.tmx''] ''C'' True]"
       and wa = "fixtureWriter [''Json files (*.json)''] ''A'' True"
       and files = "[''a.tmx'', ''b.JSON'']"
       and pre = "[fixtureWriter [''*.tmx''] ''C'' True]"
       and mid = "[fixtureWriter [''*.lua''] ''D'' True]"]
    ambiguous_at_second_suffix_match_last_filter_match_wins
    [where files = "[''Json Files'', ''a.tmx'', ''b.out'']"
       and w = "fixtureWriter [''*.lua'', ''JSON files''] ''B'' True"
       and pre = "[fixtureWriter [''json files''] ''A'' True]"
       and post = "[fixtureWriter [''*.tmx''] ''C'' True]"]
  by (simp add: matchesSuffix_def matchesFilter_def fixtureWriter_def toCaseFolded_def
      toLower_def completeSuffix_def fileName_def)

subsection \<open>Claim C3\<close>

text \<open>
  The complete suffix of a path whose file name is a dot-free base, a dot and a rest is the
  rest, whatever directories precede; a file name without a dot has the empty suffix.
\<close>

lemma fileName_append:
  assumes "dir = [] \<or> last dir = CHR ''/''" and "CHR ''/'' \<notin> set name"
  shows "fileName (dir @ name) = name"
proof -
  have "takeWhile (\<lambda>c. c \<noteq> CHR ''/'') (rev dir) = []"
    using assms(1) by (cases dir rule: rev_cases) auto
  moreover have "takeWhile (\<lambda>c. c \<noteq> CHR ''/'') (rev name @ rev dir)
      = rev name @ takeWhile (\<lambda>c. c \<noteq> CHR ''/'') (rev dir)"
    using assms(2) by (intro takeWhile_append2) auto
  ultimately show ?thesis
    by (simp add: fileName_def)
qed

lemma completeSuffix_split:
  assumes "dir = [] \<or> last dir = CHR ''/''"
    and "CHR ''/'' \<notin> set base" and "CHR ''.'' \<notin> set base" and "CHR ''/'' \<notin> set sfx"
  shows "completeSuffix (dir @ base @ CHR ''.'' # sfx) = sfx"
proof -
  have "fileName (dir @ base @ CHR ''.'' # sfx) = base @ CHR ''.'' # sfx"
    using assms by (intro fileName_append) auto
  moreover have "dropWhile (\<lambda>c. c \<noteq> CHR ''.'') (base @ CHR ''.'' # sfx)
      = dropWhile (\<lambda>c. c \<noteq> CHR ''.'') (CHR ''.'' # sfx)"
    using assms(3) by (intro dropWhile_append2) auto
  ultimately show ?thesis
    by (simp add: completeSuffix_def)
qed

lemma completeSuffix_no_dot:
  assumes "dir = [] \<or> last dir = CHR ''/''"
    and "CHR ''/'' \<notin> set name" and "CHR ''.'' \<notin> set name"
  shows "completeSuffix (dir @ name) = []"
proof -
  have "dropWhile (\<lambda>c. c \<noteq> CHR ''.'') name = []"
    using assms(3) by auto
  then show ?thesis
    by (simp only: completeSuffix_def fileName_append [OF assms(1,2)] list.case)
qed

text \<open>
  C3. The suffix against which the writers are matched is the complete suffix of the
  target: for a target whose file name is a base without dot, a dot and a rest, the suffix
  is the rest (all of it, further dots included), and an export call with two positional
  arguments selects among the writers that match this rest. For the target
  \<^verbatim>\<open>level1.tmx.bak\<close> the suffix is \<^verbatim>\<open>tmx.bak\<close>; a writer whose only name filter is
  \<^verbatim>\<open>*.tmx\<close> does not match it and is not found, and a writer whose name filter is
  \<^verbatim>\<open>*.tmx.bak\<close> matches it and is chosen.
\<close>

theorem complete_suffix_decides_suffix_match:
  "((dir = [] \<or> last dir = CHR ''/'') \<and> CHR ''/'' \<notin> set base \<and> CHR ''.'' \<notin> set base
      \<and> CHR ''/'' \<notin> set sfx
     \<longrightarrow> completeSuffix (dir @ base @ CHR ''.'' # sfx) = sfx
         \<and> resolveWriter ws [src, dir @ base @ CHR ''.'' # sfx] =
             (case filter (matchesSuffix sfx) ws of
                [] \<Rightarrow> Inl NoWriterFound
              | [m] \<Rightarrow> Inr (src, dir @ base @ CHR ''.'' # sfx, m)
              | m # m' # ms \<Rightarrow> Inl AmbiguousFormat))
   \<and> completeSuffix ''level1.tmx.bak'' = ''tmx.bak''
   \<and> (nameFilters w = [''*.tmx'']
        \<longrightarrow> \<not> matchesSuffix (completeSuffix ''level1.tmx.bak'') w
          \<and> resolveWriter [w] [src, ''level1.tmx.bak''] = Inl NoWriterFound)
   \<and> (nameFilters w = [''*.tmx.bak'']
        \<longrightarrow> matchesSuffix (completeSuffix ''level1.tmx.bak'') w
          \<and> resolveWriter [w] [src, ''level1.tmx.bak''] = Inr (src, ''level1.tmx.bak'', w))"
proof (intro conjI impI)
  assume a: "(dir = [] \<or> last dir = CHR ''/'') \<and> CHR ''/'' \<notin> set base \<and> CHR ''.'' \<notin> set base
      \<and> CHR ''/'' \<notin> set sfx"
  then show cs: "completeSuffix (dir @ base @ CHR ''.'' # sfx) = sfx"
    by (simp add: completeSuffix_split)
  show "resolveWriter ws [src, dir @ base @ CHR ''.'' # sfx] =
             (case filter (matchesSuffix sfx) ws of
                [] \<Rightarrow> Inl NoWriterFound
              | [m] \<Rightarrow> Inr (src, dir @ base @ CHR ''.'' # sfx, m)
              | m # m' # ms \<Rightarrow> Inl AmbiguousFormat)"
    using cs by (simp add: resolveWriter_eq matching_def split: list.splits)
next
  show cs: "completeSuffix ''level1.tmx.bak'' = ''tmx.bak''"
    by (simp add: completeSuffix_def fileName_def)
  {
    assume f: "nameFilters w = [''*.tmx'']"
    show m: "\<not> matchesSuffix (completeSuffix ''level1.tmx.bak'') w"
      by (simp add: cs f matchesSuffix_def toCaseFolded_def toLower_def)
    show "resolveWriter [w] [src, ''level1.tmx.bak''] = Inl NoWriterFound"
      using m by (simp add: resolveWriter_eq matching_def)
  }
  {
    assume f: "nameFilters w = [''*.tmx.bak'']"
    show m: "matchesSuffix (completeSuffix ''level1.tmx.bak'') w"
      by (simp add: cs f matchesSuffix_def toCaseFolded_def toLower_def)
    show "resolveWriter [w] [src, ''level1.tmx.bak''] = Inr (src, ''level1.tmx.bak'', w)"
      using m by (simp add: resolveWriter_eq matching_def)
  }
qed

text \<open>An instance of C3 with a target in a directory whose name has a dot.\<close>

theorem complete_suffix_decides_suffix_match_witness:
  "completeSuffix ''/home/maps/world.1/level1.tmx.bak'' = ''tmx.bak''
   \<and> resolveWriter
        [fixtureWriter [''*.tmx''] ''A'' True, fixtureWriter [''Backups (*.TMX.BAK)''] ''B'' True]
        [''a.tmx'', ''/home/maps/world.1/level1.tmx.bak'']
      = Inr (''a.tmx'', ''/home/maps/world.1/level1.tmx.bak'',
             fixtureWriter [''Backups (*.TMX.BAK)''] ''B'' True)
   \<and> resolveWriter [fixtureWriter [''*.tmx''] ''A'' True] [''a.tmx'', ''level1.tmx.bak'']
      = Inl NoWriterFound
   \<and> resolveWriter [fixtureWriter [''*.tmx.bak''] ''B'' True] [''a.tmx'', ''level1.tmx.bak'']
      = Inr (''a.tmx'', ''level1.tmx.bak'', fixtureWriter [''*.tmx.bak''] ''B'' True)"
  using complete_suffix_decides_suffix_match
      [where dir = "''/home/maps/world.1/''" and base = "''level1''" and sfx = "''tmx.bak''"
         and src = "''a.tmx''"
         and ws = "[fixtureWriter [''*.tmx''] ''A'' True,
                    fixtureWriter [''Backups (*.TMX.BAK)''] ''B'' True]"
         and w = "fixtureWriter [''*.tmx''] ''A'' True"]
    complete_suffix_decides_suffix_match
      [where dir = "[]" and base = "''level1''" and sfx = "''tmx.bak''" and src = "''a.tmx''"
         and ws = "[]" and w = "fixtureWriter [''*.tmx.bak''] ''B'' True"]
  by (auto simp add: matchesSuffix_def fixtureWriter_def toCaseFolded_def toLower_def
      completeSuffix_def fileName_def)

subsection \<open>Claim C6\<close>

text \<open>
  C6. With three or more positional arguments the first one is the filter: the call
  resolves to the second and third argument as source and target and to the last writer
  of the registry that matches the first argument, or to \<open>NoWriterFound\<close> when none
  does. In the loop, a writer is taken exactly when the filter is, up to case, one of its
  declared name filters. The suffix plays no part: the loop gives the same result for any
  two suffixes, and two calls with the same filter choose the same writer whatever their
  targets are.
\<close>

theorem filter_is_first_argument_and_suffix_is_not_consulted:
  "(3 \<le> length files \<longrightarrow>
      resolveWriter ws files =
        (case filter (matchesFilter (files ! 0)) ws of
           [] \<Rightarrow> Inl NoWriterFound
         | m # ms \<Rightarrow> Inr (files ! 1, files ! 2, last (m # ms))))
   \<and> findWriter (Some f) suffix (w # ws) c =
       findWriter (Some f) suffix ws (if matchesFilter f w then Some w else c)
   \<and> findWriter (Some f) suffix ws c = findWriter (Some f) suffix' ws c
   \<and> (3 \<le> length files \<and> 3 \<le> length files' \<and> files ! 0 = files' ! 0 \<longrightarrow>
        map_sum id (snd \<circ> snd) (resolveWriter ws files) =
        map_sum id (snd \<circ> snd) (resolveWriter ws files'))"
proof (intro conjI impI)
  assume "3 \<le> length files"
  then show "resolveWriter ws files =
        (case filter (matchesFilter (files ! 0)) ws of
           [] \<Rightarrow> Inl NoWriterFound
         | m # ms \<Rightarrow> Inr (files ! 1, files ! 2, last (m # ms)))"
    by (simp add: resolveWriter_eq matching_def split: list.splits)
next
  show "findWriter (Some f) suffix (w # ws) c =
       findWriter (Some f) suffix ws (if matchesFilter f w then Some w else c)"
    by (simp add: containsCI_iff)
next
  show "findWriter (Some f) suffix ws c = findWriter (Some f) suffix' ws c"
    by (simp add: findWriter_filter)
next
  assume "3 \<le> length files \<and> 3 \<le> length files' \<and> files ! 0 = files' ! 0"
  then show "map_sum id (snd \<circ> snd) (resolveWriter ws files) =
        map_sum id (snd \<circ> snd) (resolveWriter ws files')"
    by (simp add: resolveWriter_eq matching_def split: list.splits)
qed

text \<open>
  An instance of C6: the filter \<^verbatim>\<open>TMX Files\<close> selects the writer that declares
  \<^verbatim>\<open>tmx files\<close>, and the targets \<^verbatim>\<open>b.json\<close> and \<^verbatim>\<open>c.lua\<close>, whose suffixes two other
  writers declare, make no difference.
\<close>

theorem filter_is_first_argument_and_suffix_is_not_consulted_witness:
  "resolveWriter
     [fixtureWriter [''*.json''] ''J'' True, fixtureWriter [''tmx files''] ''T'' True,
      fixtureWriter [''*.lua''] ''L'' True]
     [''TMX Files'', ''a.tmx'', ''b.json'']
   = Inr (''a.tmx'', ''b.json'', fixtureWriter [''tmx files''] ''T'' True)
   \<and> map_sum id (snd \<circ> snd)
       (resolveWriter
          [fixtureWriter [''*.json''] ''J'' True, fixtureWriter [''tmx files''] ''T'' True,
           fixtureWriter [''*.lua''] ''L'' True]
          [''TMX Files'', ''a.tmx'', ''c.lua''])
     = Inr (fixtureWriter [''tmx files''] ''T'' True)"
  using filter_is_first_argument_and_suffix_is_not_consulted
     [where files = "[''TMX Files'', ''a.tmx'', ''b.json'']"
        and files' = "[''TMX Files'', ''a.tmx'', ''c.lua'']"
        and ws = "[fixtureWriter [''*.json''] ''J'' True, fixtureWriter [''tmx files''] ''T'' True,
                   fixtureWriter [''*.lua''] ''L'' True]"
        and f = "''TMX Files''" and suffix = "''json''" and suffix' = "''lua''"
        and w = "fixtureWriter [''Tmx Files''] ''U'' True" and c = None]
  by (auto simp add: matchesFilter_def fixtureWriter_def toCaseFolded_def toLower_def)

subsection \<open>Claim C5\<close>

text \<open>
  The errors of the resolution are reported: the export branch prints the message of the
  error, returns 1 and does nothing else.
\<close>

lemma exportMapMode_unresolved:
  "resolveWriter (writers env) files = Inl e \<Longrightarrow>
   exportMapMode env files before fs =
     \<lparr>exitCode = 1, failure = Some e, events = before @ [Warning (message e)], world = fs\<rparr>"
  by (simp add: exportMapMode_def)

lemma resolveWriter_chosen_matches:
  "resolveWriter ws files = Inr (s, t, w) \<Longrightarrow> w \<in> set (matching files ws)"
proof -
  assume r: "resolveWriter ws files = Inr (s, t, w)"
  show ?thesis
  proof (cases "matching files ws")
    case Nil
    with r show ?thesis
      by (simp add: resolveWriter_eq split: if_splits)
  next
    case (Cons m ms)
    have "last (m # ms) \<in> set (m # ms)"
      by (rule last_in_set) simp
    with r Cons show ?thesis
      by (auto simp add: resolveWriter_eq split: if_splits)
  qed
qed

text \<open>
  C5, as the code has it. A call selects at most one writer, and the writer it selects is
  one of those that match. No matching writer is the reported error \<open>NoWriterFound\<close>.
  Two or more matching writers are the reported error \<open>AmbiguousFormat\<close> when no
  filter is supplied (two positional arguments). When a filter is supplied (more than two
  positional arguments) and one or more writers match, the last of them in registry
  order is selected and nothing is reported.
\<close>

theorem one_writer_selected_and_ambiguity_reported_without_filter:
  "(resolveWriter (writers env) files = Inr (s, t, w) \<longrightarrow> w \<in> set (matching files (writers env)))
   \<and> (2 \<le> length files \<and> matching files (writers env) = [] \<longrightarrow>
        resolveWriter (writers env) files = Inl NoWriterFound
        \<and> exportMapMode env files before fs =
            \<lparr>exitCode = 1, failure = Some NoWriterFound,
             events = before @ [Warning (message NoWriterFound)], world = fs\<rparr>)
   \<and> (length files = 2 \<and> 2 \<le> length (matching files (writers env)) \<longrightarrow>
        resolveWriter (writers env) files = Inl AmbiguousFormat
        \<and> exportMapMode env files before fs =
            \<lparr>exitCode = 1, failure = Some AmbiguousFormat,
             events = before @ [Warning (message AmbiguousFormat)], world = fs\<rparr>)
   \<and> (length files = 2 \<and> matching files (writers env) = [m] \<longrightarrow>
        resolveWriter (writers env) files = Inr (files ! 0, files ! 1, m))
   \<and> (2 < length files \<and> matching files (writers env) \<noteq> [] \<longrightarrow>
        resolveWriter (writers env) files =
          Inr (files ! 1, files ! 2, last (matching files (writers env))))"
proof (intro conjI impI)
  assume "resolveWriter (writers env) files = Inr (s, t, w)"
  then show "w \<in> set (matching files (writers env))"
    by (rule resolveWriter_chosen_matches)
next
  assume a: "2 \<le> length files \<and> matching files (writers env) = []"
  then show r: "resolveWriter (writers env) files = Inl NoWriterFound"
    by (simp add: resolveWriter_eq)
  show "exportMapMode env files before fs =
            \<lparr>exitCode = 1, failure = Some NoWriterFound,
             events = before @ [Warning (message NoWriterFound)], world = fs\<rparr>"
    by (rule exportMapMode_unresolved [OF r])
next
  assume a: "length files = 2 \<and> 2 \<le> length (matching files (writers env))"
  then obtain m m' ms where "matching files (writers env) = m # m' # ms"
    by (meson two_or_more)
  with a show r: "resolveWriter (writers env) files = Inl AmbiguousFormat"
    by (simp add: resolveWriter_eq)
  show "exportMapMode env files before fs =
            \<lparr>exitCode = 1, failure = Some AmbiguousFormat,
             events = before @ [Warning (message AmbiguousFormat)], world = fs\<rparr>"
    by (rule exportMapMode_unresolved [OF r])
next
  assume "length files = 2 \<and> matching files (writers env) = [m]"
  then show "resolveWriter (writers env) files = Inr (files ! 0, files ! 1, m)"
    by (simp add: resolveWriter_eq)
next
  assume "2 < length files \<and> matching files (writers env) \<noteq> []"
  then show "resolveWriter (writers env) files =
          Inr (files ! 1, files ! 2, last (matching files (writers env)))"
    by (cases "matching files (writers env)") (simp_all add: resolveWriter_eq)
qed

text \<open>
  Instances on one registry: two writers declare the suffix of the target and the call
  fails; the same two declare the filter and the second is selected; one writer declares
  the suffix and is selected; none does and none is found.
\<close>

theorem one_writer_selected_and_ambiguity_reported_without_filter_witness:
  "exportMapMode
     (fixture [fixtureWriter [''*.json'', ''JSON''] ''A'' True,
               fixtureWriter [''*.json'', ''json''] ''B'' True,
               fixtureWriter [''*.lua''] ''L'' True])
     [''a.tmx'', ''b.json''] [LoadPlugins] []
   = \<lparr>exitCode = 1, failure = Some AmbiguousFormat,
      events = [LoadPlugins, Warning (message AmbiguousFormat)], world = []\<rparr>
   \<and> resolveWriter
       [fixtureWriter [''*.json'', ''JSON''] ''A'' True,
        fixtureWriter [''*.json'', ''json''] ''B'' True,
        fixtureWriter [''*.lua''] ''L'' True]
       [''Json'', ''a.tmx'', ''b.out'']
     = Inr (''a.tmx'', ''b.out'', fixtureWriter [''*.json'', ''json''] ''B'' True)
   \<and> resolveWriter
       [fixtureWriter [''*.json'', ''JSON''] ''A'' True,
        fixtureWriter [''*.json'', ''json''] ''B'' True,
        fixtureWriter [''*.lua''] ''L'' True]
       [''a.tmx'', ''b.lua'']
     = Inr (''a.tmx'', ''b.lua'', fixtureWriter [''*.lua''] ''L'' True)
   \<and> exportMapMode
       (fixture [fixtureWriter [''*.json'', ''JSON''] ''A'' True,
                 fixtureWriter [''*.json'', ''json''] ''B'' True,
                 fixtureWriter [''*.lua''] ''L'' True])
       [''a.tmx'', ''b.png''] [LoadPlugins] []
     = \<lparr>exitCode = 1, failure = Some NoWriterFound,
        events = [LoadPlugins, Warning (message NoWriterFound)], world = []\<rparr>"
proof -
  let ?A = "fixtureWriter [''*.json'', ''JSON''] ''A'' True"
  let ?B = "fixtureWriter [''*.json'', ''json''] ''B'' True"
  let ?L = "fixtureWriter [''*.lua''] ''L'' True"
  note defs = fixture_def matching_def matchesFilter_def matchesSuffix_def
      fixtureWriter_def toCaseFolded_def toLower_def completeSuffix_def fileName_def
  have ambiguous: "exportMapMode (fixture [?A, ?B, ?L]) [''a.tmx'', ''b.json''] [LoadPlugins] []
      = \<lparr>exitCode = 1, failure = Some AmbiguousFormat,
         events = [LoadPlugins, Warning (message AmbiguousFormat)], world = []\<rparr>"
    using one_writer_selected_and_ambiguity_reported_without_filter
       [where env = "fixture [?A, ?B, ?L]" and files = "[''a.tmx'', ''b.json'']"
          and before = "[LoadPlugins]" and fs = "[]"]
    by (simp add: defs)
  have last_wins: "resolveWriter [?A, ?B, ?L] [''Json'', ''a.tmx'', ''b.out'']
      = Inr (''a.tmx'', ''b.out'', ?B)"
    using one_writer_selected_and_ambiguity_reported_without_filter
       [where env = "fixture [?A, ?B, ?L]" and files = "[''Json'', ''a.tmx'', ''b.out'']"]
    by (simp add: defs)
  have only: "resolveWriter [?A, ?B, ?L] [''a.tmx'', ''b.lua''] = Inr (''a.tmx'', ''b.lua'', ?L)"
    using one_writer_selected_and_ambiguity_reported_without_filter
       [where env = "fixture [?A, ?B, ?L]" and files = "[''a.tmx'', ''b.lua'']" and m = ?L]
    by (simp add: defs)
  have "?L \<in> set (matching [''a.tmx'', ''b.lua''] [?A, ?B, ?L])"
    using only one_writer_selected_and_ambiguity_reported_without_filter
       [where env = "fixture [?A, ?B, ?L]" and files = "[''a.tmx'', ''b.lua'']"
          and s = "''a.tmx''" and t = "''b.lua''" and w = ?L]
    by (simp add: fixture_def)
  have none: "exportMapMode (fixture [?A, ?B, ?L]) [''a.tmx'', ''b.png''] [LoadPlugins] []
      = \<lparr>exitCode = 1, failure = Some NoWriterFound,
         events = [LoadPlugins, Warning (message NoWriterFound)], world = []\<rparr>"
    using one_writer_selected_and_ambiguity_reported_without_filter
       [where env = "fixture [?A, ?B, ?L]" and files = "[''a.tmx'', ''b.png'']"
          and before = "[LoadPlugins]" and fs = "[]"]
    by (simp add: defs)
  from ambiguous last_wins only none show ?thesis
    by (intro conjI)
qed

text \<open>
  C5 as stated fails: two writers match the filter, no error is reported, and the run
  exports through the second writer and returns 0.
\<close>

theorem several_filter_matches_resolved_silently_counterexample:
  "matching [''TMX Files'', ''a.tmx'', ''b.out'']
     [fixtureWriter [''tmx files''] ''A'' True, fixtureWriter [''TMX files''] ''B'' True]
   = [fixtureWriter [''tmx files''] ''A'' True, fixtureWriter [''TMX files''] ''B'' True]
   \<and> exportMapMode
       (fixture [fixtureWriter [''tmx files''] ''A'' True, fixtureWriter [''TMX files''] ''B'' True])
       [''TMX Files'', ''a.tmx'', ''b.out''] [] []
     = \<lparr>exitCode = 0, failure = None,
        events = [ReadMap ''a.tmx'', WriteMap 1 ''b.out'', Delete 2, Delete 3, Delete 1],
        world = [(''b.out'', ''B'')]\<rparr>"
  by (simp add: exportMapMode_def runExport_def resolveWriter_def fixture_def fixtureReader_def
      matching_def matchesFilter_def fixtureWriter_def containsCI_def toCaseFolded_def toLower_def)

subsection \<open>Claim C8\<close>

lemma resolveWriter_ignores_further_arguments:
  assumes "2 < length files"
  shows "resolveWriter ws (files @ extra) = resolveWriter ws files"
proof -
  have "(files @ extra) ! 0 = files ! 0" and "(files @ extra) ! Suc 0 = files ! Suc 0"
    and "(files @ extra) ! Suc (Suc 0) = files ! Suc (Suc 0)"
    using assms by (auto simp add: nth_append)
  with assms show ?thesis
    by (simp add: resolveWriter_def Let_def split: sum.splits option.splits)
qed

text \<open>
  C8, as the code has it. Fewer than two positional arguments are a user-input error: the
  export branch prints the syntax line and returns 1. Two or more are never that error.
  With exactly two, they are the source and the target. With more than two, the first is
  the filter, the second and the third are the source and the target, and any further
  positional argument is ignored: the call resolves as it does without them.
\<close>

theorem fewer_than_two_arguments_is_the_only_count_error:
  "(length files < 2 \<longrightarrow>
      resolveWriter (writers env) files = Inl InsufficientArguments
      \<and> exportMapMode env files before fs =
          \<lparr>exitCode = 1, failure = Some InsufficientArguments,
           events = before @ [Warning (message InsufficientArguments)], world = fs\<rparr>)
   \<and> (2 \<le> length files \<longrightarrow> resolveWriter (writers env) files \<noteq> Inl InsufficientArguments)
   \<and> (length files = 2 \<and> resolveWriter (writers env) files = Inr (s, t, w) \<longrightarrow>
        s = files ! 0 \<and> t = files ! 1)
   \<and> (2 < length files \<and> resolveWriter (writers env) files = Inr (s, t, w) \<longrightarrow>
        s = files ! 1 \<and> t = files ! 2)
   \<and> (2 < length files \<longrightarrow>
        resolveWriter (writers env) (files @ extra) = resolveWriter (writers env) files
        \<and> exportMapMode env (files @ extra) before fs = exportMapMode env files before fs)"
proof (intro conjI impI)
  assume "length files < 2"
  then show r: "resolveWriter (writers env) files = Inl InsufficientArguments"
    by (simp add: resolveWriter_def)
  show "exportMapMode env files before fs =
          \<lparr>exitCode = 1, failure = Some InsufficientArguments,
           events = before @ [Warning (message InsufficientArguments)], world = fs\<rparr>"
    by (rule exportMapMode_unresolved [OF r])
next
  assume "2 \<le> length files"
  then show "resolveWriter (writers env) files \<noteq> Inl InsufficientArguments"
    by (simp add: resolveWriter_eq split: list.splits)
next
  assume a: "length files = 2 \<and> resolveWriter (writers env) files = Inr (s, t, w)"
  then show "s = files ! 0" and "t = files ! 1"
    by (simp_all add: resolveWriter_eq split: list.splits if_splits)
next
  assume a: "2 < length files \<and> resolveWriter (writers env) files = Inr (s, t, w)"
  then show "s = files ! 1" and "t = files ! 2"
    by (simp_all add: resolveWriter_eq split: list.splits if_splits)
next
  assume "2 < length files"
  then show r: "resolveWriter (writers env) (files @ extra) = resolveWriter (writers env) files"
    by (rule resolveWriter_ignores_further_arguments)
  show "exportMapMode env (files @ extra) before fs = exportMapMode env files before fs"
    by (simp add: exportMapMode_def r)
qed

text \<open>
  Instances: one positional argument; two; three followed by a fourth that is ignored.
\<close>

theorem fewer_than_two_arguments_is_the_only_count_error_witness:
  "exportMapMode (fixture [fixtureWriter [''tmx files'', ''*.tmx''] ''T'' True])
     [''a.tmx''] [LoadPlugins] []
   = \<lparr>exitCode = 1, failure = Some InsufficientArguments,
      events = [LoadPlugins, Warning (message InsufficientArguments)], world = []\<rparr>
   \<and> resolveWriter [fixtureWriter [''tmx files'', ''*.tmx''] ''T'' True] [''a.tmx'', ''b.tmx'']
     = Inr (''a.tmx'', ''b.tmx'', fixtureWriter [''tmx files'', ''*.tmx''] ''T'' True)
   \<and> resolveWriter [fixtureWriter [''tmx files'', ''*.tmx''] ''T'' True]
       [''TMX files'', ''a.tmx'', ''b.out'', ''c.txt'']
     = Inr (''a.tmx'', ''b.out'', fixtureWriter [''tmx files'', ''*.tmx''] ''T'' True)"
proof -
  let ?T = "fixtureWriter [''tmx files'', ''*.tmx''] ''T'' True"
  note defs = fixture_def resolveWriter_def containsCI_def filterCI_def Let_def
      fixtureWriter_def toCaseFolded_def toLower_def completeSuffix_def fileName_def
  have one: "exportMapMode (fixture [?T]) [''a.tmx''] [LoadPlugins] []
      = \<lparr>exitCode = 1, failure = Some InsufficientArguments,
         events = [LoadPlugins, Warning (message InsufficientArguments)], world = []\<rparr>"
    using fewer_than_two_arguments_is_the_only_count_error
       [where env = "fixture [?T]" and files = "[''a.tmx'']" and before = "[LoadPlugins]"
          and fs = "[]"]
    by simp
  have two: "resolveWriter [?T] [''a.tmx'', ''b.tmx''] = Inr (''a.tmx'', ''b.tmx'', ?T)"
    by (simp add: defs)
  have "resolveWriter [?T] [''a.tmx'', ''b.tmx''] \<noteq> Inl InsufficientArguments
      \<and> ''a.tmx'' = [''a.tmx'', ''b.tmx''] ! 0 \<and> ''b.tmx'' = [''a.tmx'', ''b.tmx''] ! 1"
    using two fewer_than_two_arguments_is_the_only_count_error
       [where env = "fixture [?T]" and files = "[''a.tmx'', ''b.tmx'']"
          and s = "''a.tmx''" and t = "''b.tmx''" and w = ?T]
    by (simp add: fixture_def)
  have three: "resolveWriter [?T] [''TMX files'', ''a.tmx'', ''b.out''] = Inr (''a.tmx'', ''b.out'', ?T)"
    by (simp add: defs)
  have four: "resolveWriter [?T] [''TMX files'', ''a.tmx'', ''b.out'', ''c.txt'']
      = Inr (''a.tmx'', ''b.out'', ?T)"
    using three fewer_than_two_arguments_is_the_only_count_error
       [where env = "fixture [?T]" and files = "[''TMX files'', ''a.tmx'', ''b.out'']"
          and extra = "[''c.txt'']" and s = "''a.tmx''" and t = "''b.out''" and w = ?T]
    by (simp add: fixture_def)
  from one two four show ?thesis
    by (intro conjI)
qed

text \<open>
  C8 as stated fails: with a filter and three file arguments the count is not two after
  the filter is removed, and yet the run is no error: it exports the second argument to
  the third and returns 0.
\<close>

theorem four_positional_arguments_accepted_counterexample:
  "exportMapMode (fixture [fixtureWriter [''tmx files'', ''*.tmx''] ''T'' True])
     [''TMX files'', ''a.tmx'', ''b.out'', ''c.txt''] [] []
   = \<lparr>exitCode = 0, failure = None,
      events = [ReadMap ''a.tmx'', WriteMap 1 ''b.out'', Delete 2, Delete 3, Delete 1],
      world = [(''b.out'', ''T'')]\<rparr>"
  by (simp add: exportMapMode_def runExport_def resolveWriter_def fixture_def fixtureReader_def
      fixtureWriter_def containsCI_def toCaseFolded_def toLower_def)

subsection \<open>Claim C4\<close>

text \<open>Releases counted in a list of events.\<close>

lemma count_list_Delete:
  "count_list (map Delete xs) (Delete a) = count_list xs a"
  by (induction xs) simp_all

lemma count_list_distinct:
  "distinct xs \<Longrightarrow> count_list xs a = (if a \<in> set xs then 1 else 0)"
  by (induction xs) auto

lemma runExport_loaded:
  assumes "readMap env sourceFile fs = Some m"
  shows "runExport env sourceFile targetFile w before fs =
     \<lparr>exitCode = (if fst (write' w m targetFile fs) then 0 else 1),
      failure = (if fst (write' w m targetFile fs) then None else Some ExportWriteFailed),
      events = before @ [ReadMap sourceFile, WriteMap (mapAddr m) targetFile]
        @ map Delete (tilesets m) @ [Delete (mapAddr m)]
        @ (if fst (write' w m targetFile fs) then [] else [Warning (message ExportWriteFailed)]),
      world = snd (write' w m targetFile fs)\<rparr>"
  using assms by (simp add: runExport_def split: prod.splits)

text \<open>
  C4. In an export run that resolves a writer and in which the reader returns a map, the
  events that the export branch adds are: the call of the reader, the call of the writer,
  the release of every tile set of the map, the release of the map, and then, only if the
  writer failed, the failure line. This is so whether the writer succeeds or not. When the
  pointers that the map holds are pairwise distinct and distinct from the map itself,
  each of them is released exactly once, and nothing else is released.
\<close>

theorem map_and_tilesets_released_exactly_once:
  assumes "resolveWriter (writers env) files = Inr (sourceFile, targetFile, w)"
    and "readMap env sourceFile fs = Some m"
    and "distinct (mapAddr m # tilesets m)"
    and "r = exportMapMode env files before fs"
  shows "events r = before @ [ReadMap sourceFile, WriteMap (mapAddr m) targetFile]
        @ map Delete (tilesets m) @ [Delete (mapAddr m)]
        @ (if fst (write' w m targetFile fs) then [] else [Warning (message ExportWriteFailed)])
    \<and> (\<forall>a \<in> set (mapAddr m # tilesets m).
           count_list (drop (length before) (events r)) (Delete a) = 1)
    \<and> (\<forall>a. a \<notin> set (mapAddr m # tilesets m) \<longrightarrow>
           count_list (drop (length before) (events r)) (Delete a) = 0)
    \<and> exitCode r = (if fst (write' w m targetFile fs) then 0 else 1)"
proof -
  have r: "r = runExport env sourceFile targetFile w before fs"
    using assms(1,4) by (simp add: exportMapMode_def)
  have e: "events r = before @ [ReadMap sourceFile, WriteMap (mapAddr m) targetFile]
        @ map Delete (tilesets m) @ [Delete (mapAddr m)]
        @ (if fst (write' w m targetFile fs) then [] else [Warning (message ExportWriteFailed)])"
    by (simp add: r runExport_loaded [OF assms(2)])
  have x: "exitCode r = (if fst (write' w m targetFile fs) then 0 else 1)"
    by (simp add: r runExport_loaded [OF assms(2)])
  have c: "count_list (drop (length before) (events r)) (Delete a) =
      count_list (tilesets m) a + (if a = mapAddr m then 1 else 0)" for a
    by (simp add: e count_list_Delete)
  have d: "count_list (tilesets m) a = (if a \<in> set (tilesets m) then 1 else 0)" for a
    using assms(3) by (simp add: count_list_distinct)
  have once: "\<forall>a \<in> set (mapAddr m # tilesets m).
           count_list (drop (length before) (events r)) (Delete a) = 1"
    using assms(3) by (auto simp add: c d)
  have others: "\<forall>a. a \<notin> set (mapAddr m # tilesets m) \<longrightarrow>
           count_list (drop (length before) (events r)) (Delete a) = 0"
    by (auto simp add: c d)
  from e once others x show ?thesis
    by (intro conjI)
qed

text \<open>
  An instance with a writer that fails: the map at address 1 and its tile sets at 2 and 3
  are each released once, after the write, and the run returns 1.
\<close>

theorem map_and_tilesets_released_exactly_once_witness:
  "events (exportMapMode (fixture [fixtureWriter [''*.json''] ''J'' False])
            [''a.tmx'', ''b.json''] [LoadPlugins] [])
   = [LoadPlugins, ReadMap ''a.tmx'', WriteMap 1 ''b.json'', Delete 2, Delete 3, Delete 1,
      Warning (message ExportWriteFailed)]
   \<and> map (count_list
             (drop 1 (events (exportMapMode (fixture [fixtureWriter [''*.json''] ''J'' False])
                                [''a.tmx'', ''b.json''] [LoadPlugins] []))))
         [Delete 1, Delete 2, Delete 3]
       = [1, 1, 1]
   \<and> exitCode (exportMapMode (fixture [fixtureWriter [''*.json''] ''J'' False])
                 [''a.tmx'', ''b.json''] [LoadPlugins] []) = 1"
proof -
  let ?J = "fixtureWriter [''*.json''] ''J'' False"
  let ?m = "\<lparr>mapAddr = 1, tilesets = [2, 3]\<rparr>"
  have resolved: "resolveWriter (writers (fixture [?J])) [''a.tmx'', ''b.json'']
      = Inr (''a.tmx'', ''b.json'', ?J)"
    by (simp add: fixture_def resolveWriter_def Let_def filterCI_def fixtureWriter_def
        toCaseFolded_def toLower_def completeSuffix_def fileName_def)
  have loaded: "readMap (fixture [?J]) ''a.tmx'' [] = Some ?m"
    by (simp add: fixture_def fixtureReader_def)
  have different: "distinct (mapAddr ?m # tilesets ?m)"
    by simp
  have failed: "\<not> fst (write' ?J ?m ''b.json'' [])"
    by (simp add: fixtureWriter_def)
  note released = map_and_tilesets_released_exactly_once
      [OF resolved loaded different refl, where before = "[LoadPlugins]"]
  from released failed
  have "events (exportMapMode (fixture [?J]) [''a.tmx'', ''b.json''] [LoadPlugins] [])
      = [LoadPlugins, ReadMap ''a.tmx'', WriteMap 1 ''b.json'', Delete 2, Delete 3, Delete 1,
         Warning (message ExportWriteFailed)]"
    by simp
  moreover from released
  have "map (count_list (drop 1 (events (exportMapMode (fixture [?J]) [''a.tmx'', ''b.json'']
                                           [LoadPlugins] []))))
          [Delete 1, Delete 2, Delete 3]
      = [1, 1, 1]"
    by simp
  moreover from released failed
  have "exitCode (exportMapMode (fixture [?J]) [''a.tmx'', ''b.json''] [LoadPlugins] []) = 1"
    by simp
  ultimately show ?thesis
    by (intro conjI)
qed

subsection \<open>Claim C9\<close>

text \<open>The export branch reached from the parse, and the ways in which it can end.\<close>

lemma afterParse_export:
  "ok \<Longrightarrow> \<not> quit cl \<Longrightarrow> exportMap cl \<Longrightarrow>
   afterParse env (ok, cl, out) fs =
     exportMapMode env (filesToOpen cl)
       (out @ (if disableOpenGL cl then [SetUseOpenGL False] else []) @ [LoadPlugins]) fs"
  by (simp add: afterParse_def)

lemma resolveWriter_errors:
  "resolveWriter ws files = Inl e \<Longrightarrow>
   e = InsufficientArguments \<or> e = AmbiguousFormat \<or> e = NoWriterFound"
  by (auto simp add: resolveWriter_eq split: if_splits list.splits)

lemma runExport_failure:
  assumes "failure (runExport env s t w before fs) = Some e"
  shows "e = SourceLoadFailed \<or> e = ExportWriteFailed"
proof (cases "readMap env s fs")
  case None
  with assms show ?thesis
    by (auto simp add: runExport_def)
next
  case (Some m)
  from assms show ?thesis
    by (auto simp add: runExport_loaded [OF Some] split: if_splits)
qed

text \<open>
  C9. An export run that ends with \<open>InsufficientArguments\<close>, \<open>AmbiguousFormat\<close> or
  \<open>NoWriterFound\<close> has failed in the resolution of the writer. From the parse on, all it
  does is what precedes the export branch (the preference, if the flag was given, and the
  loading of the plugins) and the printing of the message of the error: the reader is not
  called, no writer is called, nothing is released, and the files are as they were. It
  returns 1.
\<close>

theorem resolution_failure_reads_and_writes_nothing:
  assumes "ok" and "\<not> quit cl" and "exportMap cl"
    and "r = afterParse env (ok, cl, out) fs"
    and "failure r = Some e"
    and "e = InsufficientArguments \<or> e = AmbiguousFormat \<or> e = NoWriterFound"
  shows "resolveWriter (writers env) (filesToOpen cl) = Inl e
    \<and> events r = out @ (if disableOpenGL cl then [SetUseOpenGL False] else [])
         @ [LoadPlugins, Warning (message e)]
    \<and> (\<forall>p. ReadMap p \<notin> set (drop (length out) (events r)))
    \<and> (\<forall>a p. WriteMap a p \<notin> set (drop (length out) (events r)))
    \<and> (\<forall>a. Delete a \<notin> set (drop (length out) (events r)))
    \<and> world r = fs
    \<and> exitCode r = 1"
proof -
  let ?started = "out @ (if disableOpenGL cl then [SetUseOpenGL False] else []) @ [LoadPlugins]"
  have r: "r = exportMapMode env (filesToOpen cl) ?started fs"
    using assms(1-4) by (simp add: afterParse_export)
  have unresolved: "resolveWriter (writers env) (filesToOpen cl) = Inl e"
  proof (cases "resolveWriter (writers env) (filesToOpen cl)")
    case (Inl e')
    with r assms(5) show ?thesis
      by (simp add: exportMapMode_unresolved)
  next
    case (Inr chosen)
    obtain s t w where "chosen = (s, t, w)"
      by (cases chosen)
    with Inr r have "r = runExport env s t w ?started fs"
      by (simp add: exportMapMode_def)
    with assms(5) have "e = SourceLoadFailed \<or> e = ExportWriteFailed"
      by (simp add: runExport_failure)
    with assms(6) show ?thesis
      by auto
  qed
  have result: "r = \<lparr>exitCode = 1, failure = Some e,
      events = ?started @ [Warning (message e)], world = fs\<rparr>"
    using r by (simp add: exportMapMode_unresolved [OF unresolved])
  have e: "events r = out @ (if disableOpenGL cl then [SetUseOpenGL False] else [])
         @ [LoadPlugins, Warning (message e)]"
    by (simp add: result)
  have "drop (length out) (events r) =
      (if disableOpenGL cl then [SetUseOpenGL False] else []) @ [LoadPlugins, Warning (message e)]"
    by (simp add: e)
  then have none: "(\<forall>p. ReadMap p \<notin> set (drop (length out) (events r)))
    \<and> (\<forall>a p. WriteMap a p \<notin> set (drop (length out) (events r)))
    \<and> (\<forall>a. Delete a \<notin> set (drop (length out) (events r)))"
    by simp
  from unresolved e none result show ?thesis
    by simp
qed

text \<open>
  An instance: export mode with rendering disabled and a target whose suffix no writer
  declares.
\<close>

theorem resolution_failure_reads_and_writes_nothing_witness:
  "afterParse (fixture [fixtureWriter [''*.json''] ''J'' True])
     (True, newCommandLineHandler
              \<lparr>disableOpenGL := True, exportMap := True, filesToOpen := [''a.tmx'', ''b.lua'']\<rparr>,
      [])
     [(''b.lua'', ''old'')]
   = \<lparr>exitCode = 1, failure = Some NoWriterFound,
      events = [SetUseOpenGL False, LoadPlugins, Warning (message NoWriterFound)],
      world = [(''b.lua'', ''old'')]\<rparr>"
proof -
  let ?env = "fixture [fixtureWriter [''*.json''] ''J'' True]"
  let ?cl = "newCommandLineHandler
              \<lparr>disableOpenGL := True, exportMap := True, filesToOpen := [''a.tmx'', ''b.lua'']\<rparr>"
  let ?r = "afterParse ?env (True, ?cl, []) [(''b.lua'', ''old'')]"
  have q: "\<not> quit ?cl" and x: "exportMap ?cl"
    by (simp_all add: newCommandLineHandler_def)
  have f: "failure ?r = Some NoWriterFound"
    by (simp add: afterParse_def exportMapMode_def resolveWriter_def Let_def fixture_def
        newCommandLineHandler_def filterCI_def fixtureWriter_def toCaseFolded_def toLower_def
        completeSuffix_def fileName_def)
  from resolution_failure_reads_and_writes_nothing [OF TrueI q x refl f]
  have "events ?r = [SetUseOpenGL False, LoadPlugins, Warning (message NoWriterFound)]
      \<and> world ?r = [(''b.lua'', ''old'')] \<and> exitCode ?r = 1"
    by (simp add: newCommandLineHandler_def)
  with f show ?thesis
    by (cases ?r) simp
qed

subsection \<open>Claim C10\<close>

lemma versionShownOnce_new: "versionShownOnce (newCommandLineHandler, [])"
  by (simp add: versionShownOnce_def newCommandLineHandler_def)

lemma versionShownOnce_invoke: "versionShownOnce s \<Longrightarrow> versionShownOnce (invoke c s)"
  by (cases s; cases c) (simp_all add: versionShownOnce_def)

lemma versionShownOnce_invokeAll: "versionShownOnce s \<Longrightarrow> versionShownOnce (invokeAll cs s)"
  by (induction cs arbitrary: s) (simp_all add: versionShownOnce_invoke)

lemma showedVersion_invoke:
  "showedVersion (fst (invoke c s)) = (c = ShowVersion \<or> showedVersion (fst s))"
  by (cases s; cases c) simp_all

lemma showedVersion_invokeAll:
  "showedVersion (fst (invokeAll cs s)) = (ShowVersion \<in> set cs \<or> showedVersion (fst s))"
  by (induction cs arbitrary: s) (auto simp add: showedVersion_invoke)

lemma showVersion_again: "showedVersion (fst s) \<Longrightarrow> showVersion s = s"
  by (cases s) simp

lemma invokeAll_append: "invokeAll (cs @ cs') s = invokeAll cs' (invokeAll cs s)"
  by (induction cs arbitrary: s) simp_all

lemma invokeAll_ShowVersion_quits:
  assumes "ShowVersion \<in> set cs"
  shows "quit (fst (invokeAll cs (newCommandLineHandler, [])))"
proof -
  have "versionShownOnce (invokeAll cs (newCommandLineHandler, []))"
    by (simp add: versionShownOnce_invokeAll versionShownOnce_new)
  moreover have "showedVersion (fst (invokeAll cs (newCommandLineHandler, [])))"
    using assms by (simp add: showedVersion_invokeAll)
  ultimately show ?thesis
    by (simp add: versionShownOnce_def)
qed

text \<open>
  C10. Whatever callbacks a parser calls on a fresh handler, and in whatever order, the
  line with the application name and version is printed once if the version callback is
  among them and not at all otherwise, however often it is called; if it is among them,
  quit is requested at the end. The callback is idempotent on every state, and a call of
  it that follows an earlier call changes nothing: the run is the same without it.
\<close>

theorem version_printed_once_and_quit_requested:
  "count_list (snd (invokeAll cs (newCommandLineHandler, []))) versionLine
     = (if ShowVersion \<in> set cs then 1 else 0)
   \<and> (ShowVersion \<in> set cs \<longrightarrow> quit (fst (invokeAll cs (newCommandLineHandler, []))))
   \<and> showVersion (showVersion s) = showVersion s
   \<and> (ShowVersion \<in> set cs \<longrightarrow>
        invokeAll (cs @ ShowVersion # cs') (newCommandLineHandler, [])
          = invokeAll (cs @ cs') (newCommandLineHandler, []))"
proof (intro conjI impI)
  have "versionShownOnce (invokeAll cs (newCommandLineHandler, []))"
    by (simp add: versionShownOnce_invokeAll versionShownOnce_new)
  then show "count_list (snd (invokeAll cs (newCommandLineHandler, []))) versionLine
     = (if ShowVersion \<in> set cs then 1 else 0)"
    by (simp add: versionShownOnce_def showedVersion_invokeAll newCommandLineHandler_def)
next
  assume "ShowVersion \<in> set cs"
  then show "quit (fst (invokeAll cs (newCommandLineHandler, [])))"
    by (rule invokeAll_ShowVersion_quits)
next
  show "showVersion (showVersion s) = showVersion s"
    by (cases s) simp
next
  assume "ShowVersion \<in> set cs"
  then have "showedVersion (fst (invokeAll cs (newCommandLineHandler, [])))"
    by (simp add: showedVersion_invokeAll)
  then have "showVersion (invokeAll cs (newCommandLineHandler, []))
      = invokeAll cs (newCommandLineHandler, [])"
    by (rule showVersion_again)
  then show "invokeAll (cs @ ShowVersion # cs') (newCommandLineHandler, [])
          = invokeAll (cs @ cs') (newCommandLineHandler, [])"
    by (simp add: invokeAll_append)
qed

text \<open>An instance: the version callback called three times among others.\<close>

theorem version_printed_once_and_quit_requested_witness:
  "invokeAll [SetExportMap, ShowVersion, ShowVersion, SetDisableOpenGL, ShowVersion]
     (newCommandLineHandler, [])
   = (\<lparr>quit = True, showedVersion = True, disableOpenGL = True, exportMap = True,
       filesToOpen = []\<rparr>,
      [Warning ''Dofus.io Map Editor 0.12.0''])
   \<and> invokeAll [SetExportMap, ShowVersion, SetDisableOpenGL] (newCommandLineHandler, [])
     = (\<lparr>quit = True, showedVersion = True, disableOpenGL = True, exportMap = True,
         filesToOpen = []\<rparr>,
        [Warning ''Dofus.io Map Editor 0.12.0''])"
proof -
  have once: "invokeAll [SetExportMap, ShowVersion, SetDisableOpenGL] (newCommandLineHandler, [])
     = (\<lparr>quit = True, showedVersion = True, disableOpenGL = True, exportMap = True,
         filesToOpen = []\<rparr>,
        [Warning ''Dofus.io Map Editor 0.12.0''])"
    by (simp add: newCommandLineHandler_def versionLine_def applicationName_def
        applicationVersion_def)
  have "invokeAll ([SetExportMap, ShowVersion] @ ShowVersion # [SetDisableOpenGL])
      (newCommandLineHandler, [])
      = invokeAll ([SetExportMap, ShowVersion] @ [SetDisableOpenGL]) (newCommandLineHandler, [])"
    using version_printed_once_and_quit_requested
      [where cs = "[SetExportMap, ShowVersion]" and cs' = "[SetDisableOpenGL]"]
    by simp
  moreover have "invokeAll ([SetExportMap, ShowVersion, ShowVersion, SetDisableOpenGL]
        @ ShowVersion # []) (newCommandLineHandler, [])
      = invokeAll ([SetExportMap, ShowVersion, ShowVersion, SetDisableOpenGL] @ [])
          (newCommandLineHandler, [])"
    using version_printed_once_and_quit_requested
      [where cs = "[SetExportMap, ShowVersion, ShowVersion, SetDisableOpenGL]" and cs' = "[]"]
    by simp
  ultimately have "invokeAll [SetExportMap, ShowVersion, ShowVersion, SetDisableOpenGL, ShowVersion]
      (newCommandLineHandler, [])
      = invokeAll [SetExportMap, ShowVersion, SetDisableOpenGL] (newCommandLineHandler, [])"
    by simp
  with once show ?thesis
    by simp
qed

subsection \<open>Claim C7\<close>

lemma runExport_not_loaded:
  "readMap env s fs = None \<Longrightarrow>
   runExport env s t w before fs =
     \<lparr>exitCode = 1, failure = Some SourceLoadFailed,
      events = before @ [ReadMap s, Warning (message SourceLoadFailed)], world = fs\<rparr>"
  by (simp add: runExport_def)

lemma exportMapMode_exit:
  "exitCode (exportMapMode env files before fs)
     = (if failure (exportMapMode env files before fs) = None then 0 else 1)"
proof (cases "resolveWriter (writers env) files")
  case (Inl e)
  then show ?thesis
    by (simp add: exportMapMode_unresolved)
next
  case (Inr chosen)
  obtain s t w where c: "chosen = (s, t, w)"
    by (cases chosen)
  show ?thesis
  proof (cases "readMap env s fs")
    case None
    with Inr c show ?thesis
      by (simp add: exportMapMode_def runExport_not_loaded)
  next
    case (Some m)
    with Inr c show ?thesis
      by (simp add: exportMapMode_def runExport_loaded)
  qed
qed

text \<open>
  C7. In an export-mode run (the parse succeeded, quit is not requested, export is
  requested) the exit status is 1 when there are fewer than two positional arguments,
  when no writer of the registry matches, when two writers match the suffix, when the
  reader returns no map and when the writer reports failure, and it is 0 when the writer
  reports success; in every such run the status is 0 exactly when the run has no failure.
  A run in which quit is requested returns 0, and so does a run in which the version
  callback was called.
\<close>

theorem export_exit_status:
  "(ok \<and> \<not> quit cl \<and> exportMap cl \<and> r = afterParse env (ok, cl, out) fs \<longrightarrow>
      (length (filesToOpen cl) < 2 \<longrightarrow>
         failure r = Some InsufficientArguments \<and> exitCode r = 1)
      \<and> (2 \<le> length (filesToOpen cl) \<and> matching (filesToOpen cl) (writers env) = [] \<longrightarrow>
         failure r = Some NoWriterFound \<and> exitCode r = 1)
      \<and> (length (filesToOpen cl) = 2 \<and> 2 \<le> length (matching (filesToOpen cl) (writers env)) \<longrightarrow>
         failure r = Some AmbiguousFormat \<and> exitCode r = 1)
      \<and> (resolveWriter (writers env) (filesToOpen cl) = Inr (s, t, w) \<and> readMap env s fs = None \<longrightarrow>
         failure r = Some SourceLoadFailed \<and> exitCode r = 1)
      \<and> (resolveWriter (writers env) (filesToOpen cl) = Inr (s, t, w) \<and> readMap env s fs = Some m
           \<and> \<not> fst (write' w m t fs) \<longrightarrow>
         failure r = Some ExportWriteFailed \<and> exitCode r = 1)
      \<and> (resolveWriter (writers env) (filesToOpen cl) = Inr (s, t, w) \<and> readMap env s fs = Some m
           \<and> fst (write' w m t fs) \<longrightarrow>
         failure r = None \<and> exitCode r = 0)
      \<and> exitCode r = (if failure r = None then 0 else 1))
   \<and> (quit cl \<longrightarrow> exitCode (afterParse env (ok, cl, out) fs) = 0)
   \<and> (ShowVersion \<in> set cs \<longrightarrow>
        exitCode (afterParse env (ok, invokeAll cs (newCommandLineHandler, [])) fs) = 0)"
proof (intro conjI impI)
  assume "quit cl"
  then show "exitCode (afterParse env (ok, cl, out) fs) = 0"
    by (simp add: afterParse_def)
next
  assume "ShowVersion \<in> set cs"
  then have "quit (fst (invokeAll cs (newCommandLineHandler, [])))"
    by (rule invokeAll_ShowVersion_quits)
  then show "exitCode (afterParse env (ok, invokeAll cs (newCommandLineHandler, [])) fs) = 0"
    by (cases "invokeAll cs (newCommandLineHandler, [])") (simp add: afterParse_def)
next
  assume a: "ok \<and> \<not> quit cl \<and> exportMap cl \<and> r = afterParse env (ok, cl, out) fs"
  let ?started = "out @ (if disableOpenGL cl then [SetUseOpenGL False] else []) @ [LoadPlugins]"
  have r: "r = exportMapMode env (filesToOpen cl) ?started fs"
    using a by (simp add: afterParse_export)
  show "exitCode r = (if failure r = None then 0 else 1)"
    unfolding r by (rule exportMapMode_exit)
  {
    assume "length (filesToOpen cl) < 2"
    then have "resolveWriter (writers env) (filesToOpen cl) = Inl InsufficientArguments"
      by (simp add: resolveWriter_def)
    then show "failure r = Some InsufficientArguments" and "exitCode r = 1"
      by (simp_all add: r exportMapMode_unresolved)
  }
  {
    assume "2 \<le> length (filesToOpen cl) \<and> matching (filesToOpen cl) (writers env) = []"
    then have "resolveWriter (writers env) (filesToOpen cl) = Inl NoWriterFound"
      by (simp add: resolveWriter_eq)
    then show "failure r = Some NoWriterFound" and "exitCode r = 1"
      by (simp_all add: r exportMapMode_unresolved)
  }
  {
    assume b: "length (filesToOpen cl) = 2
      \<and> 2 \<le> length (matching (filesToOpen cl) (writers env))"
    then obtain x x' xs where "matching (filesToOpen cl) (writers env) = x # x' # xs"
      by (meson two_or_more)
    with b have "resolveWriter (writers env) (filesToOpen cl) = Inl AmbiguousFormat"
      by (simp add: resolveWriter_eq)
    then show "failure r = Some AmbiguousFormat" and "exitCode r = 1"
      by (simp_all add: r exportMapMode_unresolved)
  }
  {
    assume "resolveWriter (writers env) (filesToOpen cl) = Inr (s, t, w)
      \<and> readMap env s fs = None"
    then show "failure r = Some SourceLoadFailed" and "exitCode r = 1"
      by (simp_all add: r exportMapMode_def runExport_not_loaded)
  }
  {
    assume "resolveWriter (writers env) (filesToOpen cl) = Inr (s, t, w)
      \<and> readMap env s fs = Some m \<and> \<not> fst (write' w m t fs)"
    then show "failure r = Some ExportWriteFailed" and "exitCode r = 1"
      by (simp_all add: r exportMapMode_def runExport_loaded)
  }
  {
    assume "resolveWriter (writers env) (filesToOpen cl) = Inr (s, t, w)
      \<and> readMap env s fs = Some m \<and> fst (write' w m t fs)"
    then show "failure r = None" and "exitCode r = 0"
      by (simp_all add: r exportMapMode_def runExport_loaded)
  }
qed

text \<open>
  Instances of C7 on one registry, one for each way in which an export run ends, and the
  quit and version runs.
\<close>

theorem export_exit_status_witness:
  "map (\<lambda>files.
          let r = afterParse
                    (fixture [fixtureWriter [''*.json''] ''A'' True,
                              fixtureWriter [''Json files (*.json)''] ''B'' True,
                              fixtureWriter [''*.lua''] ''L'' True,
                              fixtureWriter [''*.bad''] ''F'' False])
                    (True, newCommandLineHandler\<lparr>exportMap := True, filesToOpen := files\<rparr>, [])
                    []
          in (exitCode r, failure r))
     [[''a.tmx''], [''a.tmx'', ''b.png''], [''a.tmx'', ''b.json''], [''missing.tmx'', ''b.lua''],
      [''a.tmx'', ''b.bad''], [''a.tmx'', ''b.lua'']]
   = [(1, Some InsufficientArguments), (1, Some NoWriterFound), (1, Some AmbiguousFormat),
      (1, Some SourceLoadFailed), (1, Some ExportWriteFailed), (0, None)]
   \<and> exitCode (afterParse (fixture []) (True, newCommandLineHandler\<lparr>quit := True\<rparr>, []) []) = 0
   \<and> exitCode (afterParse (fixture [])
                 (True, invokeAll [SetExportMap, ShowVersion] (newCommandLineHandler, [])) []) = 0"
proof -
  let ?A = "fixtureWriter [''*.json''] ''A'' True"
  let ?B = "fixtureWriter [''Json files (*.json)''] ''B'' True"
  let ?L = "fixtureWriter [''*.lua''] ''L'' True"
  let ?F = "fixtureWriter [''*.bad''] ''F'' False"
  let ?env = "fixture [?A, ?B, ?L, ?F]"
  let ?cl = "\<lambda>files. newCommandLineHandler\<lparr>exportMap := True, filesToOpen := files\<rparr>"
  let ?r = "\<lambda>files. afterParse ?env (True, ?cl files, []) []"
  let ?m = "\<lparr>mapAddr = 1, tilesets = [2, 3]\<rparr>"
  note defs = fixture_def fixtureReader_def fixtureWriter_def newCommandLineHandler_def
      matching_def matchesSuffix_def resolveWriter_eq toCaseFolded_def toLower_def
      completeSuffix_def fileName_def
  note inst = export_exit_status
      [where env = ?env and ok = True and out = "[]" and fs = "[]" and cs = "[ShowVersion]"]
  have insufficient: "(exitCode (?r [''a.tmx'']), failure (?r [''a.tmx'']))
      = (1, Some InsufficientArguments)"
    using inst [where cl = "?cl [''a.tmx'']" and r = "?r [''a.tmx'']"
        and s = "[]" and t = "[]" and w = ?A and m = ?m]
    by (simp add: defs)
  have none: "(exitCode (?r [''a.tmx'', ''b.png'']), failure (?r [''a.tmx'', ''b.png'']))
      = (1, Some NoWriterFound)"
    using inst [where cl = "?cl [''a.tmx'', ''b.png'']" and r = "?r [''a.tmx'', ''b.png'']"
        and s = "[]" and t = "[]" and w = ?A and m = ?m]
    by (simp add: defs)
  have ambiguous: "(exitCode (?r [''a.tmx'', ''b.json'']), failure (?r [''a.tmx'', ''b.json'']))
      = (1, Some AmbiguousFormat)"
    using inst [where cl = "?cl [''a.tmx'', ''b.json'']" and r = "?r [''a.tmx'', ''b.json'']"
        and s = "[]" and t = "[]" and w = ?A and m = ?m]
    by (simp add: defs)
  have unloaded: "(exitCode (?r [''missing.tmx'', ''b.lua'']),
       failure (?r [''missing.tmx'', ''b.lua'']))
      = (1, Some SourceLoadFailed)"
    using inst [where cl = "?cl [''missing.tmx'', ''b.lua'']"
        and r = "?r [''missing.tmx'', ''b.lua'']"
        and s = "''missing.tmx''" and t = "''b.lua''" and w = ?L and m = ?m]
    by (simp add: defs)
  have unwritten: "(exitCode (?r [''a.tmx'', ''b.bad'']), failure (?r [''a.tmx'', ''b.bad'']))
      = (1, Some ExportWriteFailed)"
    using inst [where cl = "?cl [''a.tmx'', ''b.bad'']" and r = "?r [''a.tmx'', ''b.bad'']"
        and s = "''a.tmx''" and t = "''b.bad''" and w = ?F and m = ?m]
    by (simp add: defs)
  have exported: "(exitCode (?r [''a.tmx'', ''b.lua'']), failure (?r [''a.tmx'', ''b.lua'']))
      = (0, None)"
    using inst [where cl = "?cl [''a.tmx'', ''b.lua'']" and r = "?r [''a.tmx'', ''b.lua'']"
        and s = "''a.tmx''" and t = "''b.lua''" and w = ?L and m = ?m]
    by (simp add: defs)
  have quitted: "exitCode (afterParse (fixture [])
      (True, newCommandLineHandler\<lparr>quit := True\<rparr>, []) []) = 0"
    using export_exit_status
      [where env = "fixture []" and ok = True and out = "[]" and fs = "[]"
         and cl = "newCommandLineHandler\<lparr>quit := True\<rparr>"]
    by simp
  have version: "exitCode (afterParse (fixture [])
      (True, invokeAll [SetExportMap, ShowVersion] (newCommandLineHandler, [])) []) = 0"
    using export_exit_status
      [where env = "fixture []" and ok = True and fs = "[]"
         and cs = "[SetExportMap, ShowVersion]"]
    by simp
  from insufficient none ambiguous unloaded unwritten exported quitted version
  show ?thesis
    by (simp add: Let_def)
qed

subsection \<open>Claim C2\<close>

text \<open>
  The parser fails when a token is an unknown flag, and all that it prints is the version
  line.
\<close>

lemma parse_unknownFlag:
  "\<exists>token \<in> set arguments. unknownFlag token \<Longrightarrow> \<not> fst (parse arguments s)"
proof (induction arguments arbitrary: s)
  case Nil
  then show ?case by simp
next
  case (Cons token rest)
  obtain h out where s: "s = (h, out)"
    by (cases s)
  show ?case
  proof (cases "unknownFlag token")
    case True
    then show ?thesis
      by (simp add: s unknownFlag_def)
  next
    case False
    with Cons.prems have "\<exists>token \<in> set rest. unknownFlag token"
      by simp
    then have "\<not> fst (parse rest s')" for s'
      by (rule Cons.IH)
    then show ?thesis
      by (simp add: s split: option.splits)
  qed
qed

lemma invoke_prints:
  "set (snd (invoke c s)) \<subseteq> insert versionLine (set (snd s))"
  by (cases s; cases c) auto

lemma parse_prints:
  "set (snd (snd (parse arguments s))) \<subseteq> insert versionLine (set (snd s))"
proof (induction arguments arbitrary: s)
  case Nil
  then show ?case by auto
next
  case (Cons token rest)
  obtain h out where s: "s = (h, out)"
    by (cases s)
  show ?case
  proof (cases "lookupOption registeredOptions token")
    case None
    show ?thesis
    proof (cases "isFlag token")
      case True
      with None show ?thesis
        by (auto simp add: s)
    next
      case False
      with None Cons.IH [of "(h\<lparr>filesToOpen := filesToOpen h @ [token]\<rparr>, out)"]
      show ?thesis
        by (simp add: s)
    qed
  next
    case (Some cb)
    with Cons.IH [of "invoke cb (h, out)"] invoke_prints [of cb "(h, out)"]
    show ?thesis
      by (auto simp add: s)
  qed
qed

text \<open>
  C2, as the code has it. When an argument is an unknown flag the parser fails, and
  \<^verbatim>\<open>main\<close> returns at once with exit status 0: the run ends as \<open>MalformedArguments\<close>,
  it prints nothing but, at most, the version line, neither the export branch nor the
  main window is reached, and the files are unchanged.
\<close>

theorem unknown_flag_ends_run_with_status_zero:
  assumes "\<exists>token \<in> set arguments. unknownFlag token"
  shows "\<not> fst (parse arguments (newCommandLineHandler, []))
    \<and> failure (main env arguments fs) = Some MalformedArguments
    \<and> exitCode (main env arguments fs) = 0
    \<and> set (events (main env arguments fs)) \<subseteq> {versionLine}
    \<and> world (main env arguments fs) = fs"
proof -
  obtain ok cl out where p: "parse arguments (newCommandLineHandler, []) = (ok, cl, out)"
    by (cases "parse arguments (newCommandLineHandler, [])")
  have "\<not> fst (parse arguments (newCommandLineHandler, []))"
    using assms by (rule parse_unknownFlag)
  with p have ok: "\<not> ok"
    by simp
  have "set (snd (snd (parse arguments (newCommandLineHandler, [])))) \<subseteq> {versionLine}"
    using parse_prints [of arguments "(newCommandLineHandler, [])"] by simp
  with p have out: "set out \<subseteq> {versionLine}"
    by simp
  have "main env arguments fs =
      \<lparr>exitCode = 0, failure = Some MalformedArguments, events = out, world = fs\<rparr>"
    using ok by (simp add: main_def afterParse_def p)
  with ok out p show ?thesis
    by simp
qed

text \<open>An instance: the version flag, export mode and an unknown long option.\<close>

theorem unknown_flag_ends_run_with_status_zero_witness:
  "main (fixture [fixtureWriter [''*.tmx''] ''T'' True])
     [''-v'', ''--export-map'', ''--frobnicate'', ''a.tmx'', ''b.tmx''] []
   = \<lparr>exitCode = 0, failure = Some MalformedArguments,
      events = [Warning ''Dofus.io Map Editor 0.12.0''], world = []\<rparr>"
proof -
  have "unknownFlag ''--frobnicate''"
    by (simp add: unknownFlag_def isFlag_def registeredOptions_def)
  then have "\<exists>token \<in> set [''-v'', ''--export-map'', ''--frobnicate'', ''a.tmx'', ''b.tmx''].
      unknownFlag token"
    by simp
  from unknown_flag_ends_run_with_status_zero
      [where env = "fixture [fixtureWriter [''*.tmx''] ''T'' True]" and fs = "[]", OF this]
  have "exitCode (main (fixture [fixtureWriter [''*.tmx''] ''T'' True])
      [''-v'', ''--export-map'', ''--frobnicate'', ''a.tmx'', ''b.tmx''] []) = 0"
    by blast
  moreover have "main (fixture [fixtureWriter [''*.tmx''] ''T'' True])
      [''-v'', ''--export-map'', ''--frobnicate'', ''a.tmx'', ''b.tmx''] []
    = \<lparr>exitCode = exitCode (main (fixture [fixtureWriter [''*.tmx''] ''T'' True])
          [''-v'', ''--export-map'', ''--frobnicate'', ''a.tmx'', ''b.tmx''] []),
       failure = Some MalformedArguments,
       events = [Warning ''Dofus.io Map Editor 0.12.0''], world = []\<rparr>"
    by (simp add: main_def afterParse_def registeredOptions_def isFlag_def
        newCommandLineHandler_def versionLine_def applicationName_def applicationVersion_def)
  ultimately show ?thesis
    by simp
qed

text \<open>
  C2 as stated fails: the argument \<^verbatim>\<open>--frobnicate\<close> is an unknown flag, and the exit
  status of the run is 0.
\<close>

theorem unknown_flag_exit_status_counterexample:
  "unknownFlag ''--frobnicate''
   \<and> exitCode (main (fixture []) [''--export-map'', ''--frobnicate'', ''a.tmx'', ''b.tmx''] []) = 0"
  by (simp add: unknownFlag_def main_def afterParse_def registeredOptions_def isFlag_def
      newCommandLineHandler_def)

end
